theory Spec2Isabelle
  imports Complex_Main
begin

section \<open>Data model (models.py, artifacts.py, errors.py)\<close>

text \<open>
  \<^verbatim>\<open>StepStatus\<close> and \<^verbatim>\<open>RunStatus\<close> are \<^verbatim>\<open>Literal\<close> aliases of \<^verbatim>\<open>str\<close>; the
  dataclasses store plain strings, and so do the records. Both dataclasses have fields
  called \<^verbatim>\<open>status\<close>, \<^verbatim>\<open>started_at\<close> and \<^verbatim>\<open>finished_at\<close>: the selectors are
  written qualified (\<open>StepResult.status\<close>, \<open>RunResult.status\<close>) where needed.
\<close>

record StepResult =
  name :: string
  status :: string
  started_at :: string
  finished_at :: string
  message :: string

record RunResult =
  run_id :: string
  artifact :: string
  approved :: bool
  status :: string
  started_at :: string
  finished_at :: string
  steps :: "StepResult list"

record Artifact =
  key :: string
  description :: string

text \<open>
  The exceptions the run can meet: the two of errors.py, and the three the standard library
  raises in the calls the run makes (\<^verbatim>\<open>time.sleep\<close> on a negative length or on a
  \<^verbatim>\<open>nan\<close>, \<^verbatim>\<open>list.index\<close> on a missing element: \<^verbatim>\<open>ValueError\<close>; \<^verbatim>\<open>time.sleep\<close>
  on a length that does not fit its timer: \<^verbatim>\<open>OverflowError\<close>; \<^verbatim>\<open>input\<close> at end of
  input: \<^verbatim>\<open>EOFError\<close>). The library's exceptions are kept without their message text.
\<close>

datatype error =
    ArtifactNotFoundError string
  | ApprovalRejectedError string
  | ValueError
  | OverflowError
  | EOFError

definition DEFAULT_ARTIFACTS :: "Artifact list" where
  "DEFAULT_ARTIFACTS =
     [\<lparr>key = ''api-service@1.0.0'', description = ''API service container image''\<rparr>,
      \<lparr>key = ''web-frontend@2.3.1'', description = ''Web frontend static bundle''\<rparr>,
      \<lparr>key = ''worker@0.9.5'', description = ''Background worker binary''\<rparr>]"

definition list_artifacts :: "Artifact list" where
  "list_artifacts = DEFAULT_ARTIFACTS"

definition artifact_exists :: "string \<Rightarrow> bool" where
  "artifact_exists k = list_ex (\<lambda>a. key a = k) DEFAULT_ARTIFACTS"

section \<open>Floats\<close>

text \<open>
  \<^verbatim>\<open>simulate_seconds\<close> is a Python float: a finite number, an infinity or \<^verbatim>\<open>nan\<close>.
  Finite floats are taken as the real numbers they denote (rounding inside the library is
  not modelled; \<open>-0.0\<close> and \<open>0.0\<close> are one value). \<open>float_gt a b\<close> is \<^verbatim>\<open>a > b\<close>, false
  whenever \<^verbatim>\<open>nan\<close> takes part; \<open>py_max a b\<close> is the built-in \<^verbatim>\<open>max(a, b)\<close>, which keeps
  its first argument unless the second is greater.
\<close>

datatype pyfloat = Fin real | PInf | NInf | NaN

fun float_gt :: "pyfloat \<Rightarrow> pyfloat \<Rightarrow> bool" where
  "float_gt (Fin a) (Fin b) = (b < a)"
| "float_gt (Fin a) NInf = True"
| "float_gt (Fin a) PInf = False"
| "float_gt (Fin a) NaN = False"
| "float_gt PInf (Fin b) = True"
| "float_gt PInf NInf = True"
| "float_gt PInf PInf = False"
| "float_gt PInf NaN = False"
| "float_gt NInf b = False"
| "float_gt NaN b = False"

definition py_max :: "pyfloat \<Rightarrow> pyfloat \<Rightarrow> pyfloat" where
  "py_max a b = (if float_gt b a then b else a)"

section \<open>The world the run acts on\<close>

text \<open>
  run_pipeline reads the clock, reads the console, sleeps and logs. The world holds what
  these calls read and records what they do, in order:
  \<^item> \<open>clock\<close> and \<open>ticks\<close>: the \<open>k\<close>-th call of \<^verbatim>\<open>utc_now_iso\<close> returns \<open>clock k\<close>;
    \<open>ticks\<close> counts the calls made so far;
  \<^item> \<open>stdin\<close>: the lines the console will still deliver to \<^verbatim>\<open>input\<close>;
  \<^item> \<open>events\<close>: the clock readings, log records, console prompts and sleeps performed,
    oldest first, so that the trace tells what happened between two clock readings.
  Console lines are strings of code points below 256.
\<close>

datatype level = INFO | WARNING | ERROR

datatype event =
    Now string
  | Log level string string
  | Input string
  | Sleep pyfloat

record world =
  clock :: "nat \<Rightarrow> string"
  ticks :: nat
  stdin :: "string list"
  events :: "event list"

definition utc_now_iso :: "world \<Rightarrow> string \<times> world" where
  "utc_now_iso w =
     (clock w (ticks w),
      w\<lparr>ticks := Suc (ticks w), events := events w @ [Now (clock w (ticks w))]\<rparr>)"

text \<open>\<open>logger_info msg rid\<close> is \<^verbatim>\<open>logger.info(msg, extra={"run_id": rid})\<close>, the message
  already formatted.\<close>

definition logger_info :: "string \<Rightarrow> string \<Rightarrow> world \<Rightarrow> world" where
  "logger_info msg rid w = w\<lparr>events := events w @ [Log INFO msg rid]\<rparr>"

definition logger_warning :: "string \<Rightarrow> string \<Rightarrow> world \<Rightarrow> world" where
  "logger_warning msg rid w = w\<lparr>events := events w @ [Log WARNING msg rid]\<rparr>"

definition logger_error :: "string \<Rightarrow> string \<Rightarrow> world \<Rightarrow> world" where
  "logger_error msg rid w = w\<lparr>events := events w @ [Log ERROR msg rid]\<rparr>"

text \<open>
  \<^verbatim>\<open>time.sleep(x)\<close> turns \<open>x\<close> into a signed 64-bit count of nanoseconds, rounding away
  from zero, and raises \<^verbatim>\<open>OverflowError\<close> when the count does not fit (so for every
  length above \<open>(2^63 - 1) / 10^9\<close> seconds, about 9.22e9, and for the infinities); it
  raises \<^verbatim>\<open>ValueError\<close> for \<^verbatim>\<open>nan\<close> and for a negative length; otherwise it sleeps.
\<close>

fun time_sleep :: "pyfloat \<Rightarrow> world \<Rightarrow> (error + unit) \<times> world" where
  "time_sleep NaN w = (Inl ValueError, w)"
| "time_sleep PInf w = (Inl OverflowError, w)"
| "time_sleep NInf w = (Inl OverflowError, w)"
| "time_sleep (Fin d) w =
     (if d * 10 ^ 9 < - (2 ^ 63) \<or> 2 ^ 63 - 1 < d * 10 ^ 9 then (Inl OverflowError, w)
      else if d < 0 then (Inl ValueError, w)
      else (Inr (), w\<lparr>events := events w @ [Sleep (Fin d)]\<rparr>))"

text \<open>The lengths \<^verbatim>\<open>time.sleep\<close> accepts: the finite, non-negative ones whose count of
  nanoseconds fits.\<close>

fun sleep_accepts :: "pyfloat \<Rightarrow> bool" where
  "sleep_accepts (Fin d) = (0 \<le> d \<and> d * 10 ^ 9 \<le> 2 ^ 63 - 1)"
| "sleep_accepts PInf = False"
| "sleep_accepts NInf = False"
| "sleep_accepts NaN = False"

text \<open>\<^verbatim>\<open>input(prompt)\<close> writes the prompt and returns the next console line, or raises
  \<^verbatim>\<open>EOFError\<close> when there is none.\<close>

definition input :: "string \<Rightarrow> world \<Rightarrow> (error + string) \<times> world" where
  "input prompt w =
     (let w1 = w\<lparr>events := events w @ [Input prompt]\<rparr>
      in case stdin w of
           [] \<Rightarrow> (Inl EOFError, w1)
         | l # ls \<Rightarrow> (Inr l, w1\<lparr>stdin := ls\<rparr>))"

text \<open>How many times \<^verbatim>\<open>input\<close> was called in a trace of events.\<close>

fun is_Input :: "event \<Rightarrow> bool" where
  "is_Input (Input p) = True"
| "is_Input (Now t) = False"
| "is_Input (Log l m r) = False"
| "is_Input (Sleep d) = False"

definition input_calls :: "event list \<Rightarrow> nat" where
  "input_calls es = length (filter is_Input es)"

text \<open>How many sleeps a trace of events holds: one per step whose work was simulated.\<close>

fun is_Sleep :: "event \<Rightarrow> bool" where
  "is_Sleep (Sleep d) = True"
| "is_Sleep (Now t) = False"
| "is_Sleep (Log l m r) = False"
| "is_Sleep (Input p) = False"

definition sleep_calls :: "event list \<Rightarrow> nat" where
  "sleep_calls es = length (filter is_Sleep es)"

section \<open>String helpers of the approval prompt\<close>

text \<open>
  \<^verbatim>\<open>str.strip()\<close> and \<^verbatim>\<open>str.lower()\<close> on code points below 256. The whitespace
  characters there are \<open>0x09\<close> to \<open>0x0D\<close>, \<open>0x1C\<close> to \<open>0x1F\<close>, the space, \<open>0x85\<close> and
  \<open>0xA0\<close>. The upper-case letters there are \<open>A\<close> to \<open>Z\<close> and \<open>0xC0\<close> to \<open>0xDE\<close> without
  the multiplication sign \<open>0xD7\<close>; each has its lower-case letter 32 places further.
\<close>

definition is_space :: "char \<Rightarrow> bool" where
  "is_space c = (c \<in> set [CHR 0x09, CHR 0x0A, CHR 0x0B, CHR 0x0C, CHR 0x0D,
                          CHR 0x1C, CHR 0x1D, CHR 0x1E, CHR 0x1F, CHR '' '',
                          CHR 0x85, CHR 0xA0])"

definition strip :: "string \<Rightarrow> string" where
  "strip s = rev (dropWhile is_space (rev (dropWhile is_space s)))"

definition upper_letters :: string where
  "upper_letters =
     ''ABCDEFGHIJKLMNOPQRSTUVWXYZ'' @
     [CHR 0xC0, CHR 0xC1, CHR 0xC2, CHR 0xC3, CHR 0xC4, CHR 0xC5, CHR 0xC6, CHR 0xC7,
      CHR 0xC8, CHR 0xC9, CHR 0xCA, CHR 0xCB, CHR 0xCC, CHR 0xCD, CHR 0xCE, CHR 0xCF,
      CHR 0xD0, CHR 0xD1, CHR 0xD2, CHR 0xD3, CHR 0xD4, CHR 0xD5, CHR 0xD6,
      CHR 0xD8, CHR 0xD9, CHR 0xDA, CHR 0xDB, CHR 0xDC, CHR 0xDD, CHR 0xDE]"

definition lower_letters :: string where
  "lower_letters =
     ''abcdefghijklmnopqrstuvwxyz'' @
     [CHR 0xE0, CHR 0xE1, CHR 0xE2, CHR 0xE3, CHR 0xE4, CHR 0xE5, CHR 0xE6, CHR 0xE7,
      CHR 0xE8, CHR 0xE9, CHR 0xEA, CHR 0xEB, CHR 0xEC, CHR 0xED, CHR 0xEE, CHR 0xEF,
      CHR 0xF0, CHR 0xF1, CHR 0xF2, CHR 0xF3, CHR 0xF4, CHR 0xF5, CHR 0xF6,
      CHR 0xF8, CHR 0xF9, CHR 0xFA, CHR 0xFB, CHR 0xFC, CHR 0xFD, CHR 0xFE]"

definition lower_char :: "char \<Rightarrow> char" where
  "lower_char c =
     (case map_of (zip upper_letters lower_letters) c of
        Some l \<Rightarrow> l
      | None \<Rightarrow> c)"

definition lower :: "string \<Rightarrow> string" where
  "lower s = map lower_char s"

section \<open>pipeline.py\<close>

definition PIPELINE_STEPS :: "string list" where
  "PIPELINE_STEPS = [''build'', ''test'', ''package'', ''deploy'']"

text \<open>
  \<^verbatim>\<open>
  def require_approval(prompt="Approve deployment? (y/N): ", auto_yes=False) -> bool:
      if auto_yes:
          return True
      ans = input(prompt).strip().lower()
      return ans in ("y", "yes", "o", "oui")
  \<close>
\<close>

definition require_approval :: "string \<Rightarrow> bool \<Rightarrow> world \<Rightarrow> (error + bool) \<times> world" where
  "require_approval prompt auto_yes w =
     (if auto_yes then (Inr True, w)
      else case input prompt w of
             (Inl e, w1) \<Rightarrow> (Inl e, w1)
           | (Inr l, w1) \<Rightarrow>
               (let ans = lower (strip l)
                in (Inr (ans \<in> set [''y'', ''yes'', ''o'', ''oui'']), w1)))"

definition default_prompt :: string where
  "default_prompt = ''Approve deployment? (y/N): ''"

text \<open>\<^verbatim>\<open>xs.index(x)\<close>: the position of the first occurrence, \<^verbatim>\<open>ValueError\<close> when there is
  none.\<close>

fun list_index :: "string list \<Rightarrow> string \<Rightarrow> error + nat" where
  "list_index [] x = Inl ValueError"
| "list_index (y # ys) x =
     (if y = x then Inr 0
      else case list_index ys x of Inl e \<Rightarrow> Inl e | Inr i \<Rightarrow> Inr (Suc i))"

text \<open>The condition \<^verbatim>\<open>fail_step and step == fail_step\<close>: \<^verbatim>\<open>None\<close> and the empty string
  are both falsy.\<close>

fun fails_at :: "string option \<Rightarrow> string \<Rightarrow> bool" where
  "fails_at None step = False"
| "fails_at (Some f) step = (f \<noteq> [] \<and> step = f)"

text \<open>The inner loop (lines 73 to 83): one skipped result per remaining step, each with
  one clock reading.\<close>

fun skip_loop :: "string list \<Rightarrow> StepResult list \<Rightarrow> world \<Rightarrow> StepResult list \<times> world" where
  "skip_loop [] step_results w = (step_results, w)"
| "skip_loop (remaining # rest) step_results w =
     (case utc_now_iso w of
        (now, w1) \<Rightarrow>
          skip_loop rest
            (step_results @
               [\<lparr>name = remaining, StepResult.status = ''skipped'',
                 StepResult.started_at = now, StepResult.finished_at = now,
                 message = ''Skipped due to previous failure.''\<rparr>])
            w1)"

text \<open>
  The loop over the steps (lines 51 to 96). \<open>all_steps\<close> is the module's list
  \<^verbatim>\<open>PIPELINE_STEPS\<close>, taken as a parameter; \<open>todo\<close> is what the \<^verbatim>\<open>for\<close> has still to
  visit; the pair is \<^verbatim>\<open>(step_results, overall_status)\<close>. The \<^verbatim>\<open>break\<close> is the branch
  that does not recurse.
\<close>

fun step_loop ::
  "string list \<Rightarrow> string \<Rightarrow> string option \<Rightarrow> pyfloat \<Rightarrow> string list \<Rightarrow>
   StepResult list \<times> string \<Rightarrow> world \<Rightarrow> (error + StepResult list \<times> string) \<times> world" where
  "step_loop all_steps rid fail_step simulate_seconds [] (step_results, overall_status) w =
     (Inr (step_results, overall_status), w)"
| "step_loop all_steps rid fail_step simulate_seconds (step # todo) (step_results, overall_status) w =
     (case utc_now_iso w of
        (step_start, w1) \<Rightarrow>
          (case time_sleep (py_max (Fin 0) simulate_seconds)
                  (logger_info (''Step started: '' @ step) rid w1) of
             (Inl e, w2) \<Rightarrow> (Inl e, w2)
           | (Inr u, w2) \<Rightarrow>
               (if fails_at fail_step step then
                  (case utc_now_iso w2 of
                     (step_end, w3) \<Rightarrow>
                       (let msg = ''Simulated failure at step '' @ [CHR 0x27] @ step @ [CHR 0x27] @ ''.'';
                            w4 = logger_error msg rid w3;
                            step_results1 = step_results @
                              [\<lparr>name = step, StepResult.status = ''failed'',
                                StepResult.started_at = step_start,
                                StepResult.finished_at = step_end, message = msg\<rparr>]
                        in case list_index all_steps step of
                             Inl e \<Rightarrow> (Inl e, w4)
                           | Inr i \<Rightarrow>
                               (case skip_loop (drop (i + 1) all_steps) step_results1 w4 of
                                  (step_results2, w5) \<Rightarrow> (Inr (step_results2, ''failed''), w5))))
                else
                  (case utc_now_iso w2 of
                     (step_end, w3) \<Rightarrow>
                       step_loop all_steps rid fail_step simulate_seconds todo
                         (step_results @
                            [\<lparr>name = step, StepResult.status = ''success'',
                              StepResult.started_at = step_start,
                              StepResult.finished_at = step_end, message = ''OK''\<rparr>],
                          overall_status)
                         (logger_info (''Step finished: '' @ step @ '' (success)'') rid w3)))))"

text \<open>
  The approval gate of run_pipeline (lines 40 to 46): the value \<open>appr\<close> is the variable
  \<^verbatim>\<open>approved\<close> that the rest of the run sees.
\<close>

definition approval_gate :: "string \<Rightarrow> bool \<Rightarrow> bool \<Rightarrow> world \<Rightarrow> (error + bool) \<times> world" where
  "approval_gate rid require_manual_approval auto_yes w =
     (if require_manual_approval then
        (case require_approval default_prompt auto_yes
                (logger_info ''Waiting for manual approval...'' rid w) of
           (Inl e, w1) \<Rightarrow> (Inl e, w1)
         | (Inr appr, w1) \<Rightarrow>
             (if \<not> appr then
                (Inl (ApprovalRejectedError ''Approval rejected by user.''),
                 logger_warning ''Approval rejected.'' rid w1)
              else (Inr appr, w1)))
      else (Inr True, w))"

text \<open>
  run_pipeline, with the module's \<^verbatim>\<open>PIPELINE_STEPS\<close> as the parameter \<open>all_steps\<close>.
  The result is the returned RunResult or the raised exception, and the world the call
  leaves behind.
\<close>

definition run_pipeline_on ::
  "string list \<Rightarrow> string \<Rightarrow> string \<Rightarrow> bool \<Rightarrow> bool \<Rightarrow> string option \<Rightarrow> pyfloat \<Rightarrow> world \<Rightarrow>
   (error + RunResult) \<times> world" where
  "run_pipeline_on all_steps rid art require_manual_approval auto_yes fail_step simulate_seconds w =
     (case utc_now_iso w of
        (started, w1) \<Rightarrow>
          (let w2 = logger_info (''Run started. artifact='' @ art) rid w1
           in if \<not> artifact_exists art then
                (Inl (ArtifactNotFoundError (''Unknown artifact: '' @ art)),
                 logger_error (''Unknown artifact: '' @ art) rid w2)
              else
                (case approval_gate rid require_manual_approval auto_yes w2 of
                   (Inl e, w3) \<Rightarrow> (Inl e, w3)
                 | (Inr appr, w3) \<Rightarrow>
                     (case step_loop all_steps rid fail_step simulate_seconds all_steps
                             ([], ''success'') w3 of
                        (Inl e, w4) \<Rightarrow> (Inl e, w4)
                      | (Inr (step_results, overall_status), w4) \<Rightarrow>
                          (case utc_now_iso w4 of
                             (finished, w5) \<Rightarrow>
                               (let result =
                                      \<lparr>run_id = rid, artifact = art, approved = appr,
                                       status = overall_status, started_at = started,
                                       finished_at = finished, steps = step_results\<rparr>
                                in (Inr result,
                                    logger_info (''Run finished. status='' @ RunResult.status result)
                                      rid w5)))))))"

definition run_pipeline ::
  "string \<Rightarrow> string \<Rightarrow> bool \<Rightarrow> bool \<Rightarrow> string option \<Rightarrow> pyfloat \<Rightarrow> world \<Rightarrow>
   (error + RunResult) \<times> world" where
  "run_pipeline = run_pipeline_on PIPELINE_STEPS"

text \<open>A world for examples: the \<open>k\<close>-th clock reading is \<open>k\<close> written in unary, the console
  delivers the given lines, and nothing has happened yet.\<close>

definition sample_world :: "string list \<Rightarrow> world" where
  "sample_world ls =
     \<lparr>clock = (\<lambda>k. replicate k (CHR ''I'')), ticks = 0, stdin = ls, events = []\<rparr>"

section \<open>Auxiliary functions for the proofs\<close>

text \<open>
  What the loop appends and what it does, written as functions of the clock and of the
  number of readings made before: a successful step takes two readings, a skipped one
  takes one. They are used to state the lemmas about \<open>step_loop\<close>; the theorems below
  speak about \<open>step_loop\<close> and \<open>run_pipeline_on\<close> themselves.
\<close>

fun ok_results :: "(nat \<Rightarrow> string) \<Rightarrow> nat \<Rightarrow> string list \<Rightarrow> StepResult list" where
  "ok_results clk k [] = []"
| "ok_results clk k (s # ss) =
     \<lparr>name = s, StepResult.status = ''success'', StepResult.started_at = clk k,
      StepResult.finished_at = clk (Suc k), message = ''OK''\<rparr> # ok_results clk (Suc (Suc k)) ss"

fun skipped_results :: "(nat \<Rightarrow> string) \<Rightarrow> nat \<Rightarrow> string list \<Rightarrow> StepResult list" where
  "skipped_results clk k [] = []"
| "skipped_results clk k (s # ss) =
     \<lparr>name = s, StepResult.status = ''skipped'', StepResult.started_at = clk k,
      StepResult.finished_at = clk k, message = ''Skipped due to previous failure.''\<rparr>
     # skipped_results clk (Suc k) ss"

definition failed_result :: "(nat \<Rightarrow> string) \<Rightarrow> nat \<Rightarrow> string \<Rightarrow> StepResult" where
  "failed_result clk k s =
     \<lparr>name = s, StepResult.status = ''failed'', StepResult.started_at = clk k,
      StepResult.finished_at = clk (Suc k),
      message = ''Simulated failure at step '' @ [CHR 0x27] @ s @ [CHR 0x27] @ ''.''\<rparr>"

text \<open>The trace of one successful step, of one failed step and of one skipped step, read
  off the StepResult it appended.\<close>

definition ok_trace :: "string \<Rightarrow> pyfloat \<Rightarrow> StepResult \<Rightarrow> event list" where
  "ok_trace rid d r =
     [Now (StepResult.started_at r), Log INFO (''Step started: '' @ name r) rid,
      Sleep (py_max (Fin 0) d), Now (StepResult.finished_at r),
      Log INFO (''Step finished: '' @ name r @ '' (success)'') rid]"

definition failed_trace :: "string \<Rightarrow> pyfloat \<Rightarrow> StepResult \<Rightarrow> event list" where
  "failed_trace rid d r =
     [Now (StepResult.started_at r), Log INFO (''Step started: '' @ name r) rid,
      Sleep (py_max (Fin 0) d), Now (StepResult.finished_at r),
      Log ERROR (message r) rid]"

definition skipped_trace :: "StepResult \<Rightarrow> event list" where
  "skipped_trace r = [Now (StepResult.started_at r)]"

definition ok_events :: "string \<Rightarrow> pyfloat \<Rightarrow> (nat \<Rightarrow> string) \<Rightarrow> nat \<Rightarrow> string list \<Rightarrow> event list" where
  "ok_events rid d clk k ss = concat (map (ok_trace rid d) (ok_results clk k ss))"

definition failed_events :: "string \<Rightarrow> pyfloat \<Rightarrow> (nat \<Rightarrow> string) \<Rightarrow> nat \<Rightarrow> string \<Rightarrow> event list" where
  "failed_events rid d clk k s = failed_trace rid d (failed_result clk k s)"

definition skipped_events :: "(nat \<Rightarrow> string) \<Rightarrow> nat \<Rightarrow> string list \<Rightarrow> event list" where
  "skipped_events clk k ss = concat (map skipped_trace (skipped_results clk k ss))"

text \<open>The world in which run_pipeline checks the artifact: one clock reading
  (\<^verbatim>\<open>started_at\<close>) and the log record of the start.\<close>

definition started_world :: "string \<Rightarrow> string \<Rightarrow> world \<Rightarrow> world" where
  "started_world art rid w =
     logger_info (''Run started. artifact='' @ art) rid (snd (utc_now_iso w))"

section \<open>Lemmas about the loops\<close>

lemma length_ok_results: "length (ok_results clk k ss) = length ss"
  by (induction ss arbitrary: k) simp_all

lemma length_skipped_results: "length (skipped_results clk k ss) = length ss"
  by (induction ss arbitrary: k) simp_all

lemma names_ok_results: "map name (ok_results clk k ss) = ss"
  by (induction ss arbitrary: k) simp_all

lemma names_skipped_results: "map name (skipped_results clk k ss) = ss"
  by (induction ss arbitrary: k) simp_all



lemma ok_results_status:
  "r \<in> set (ok_results clk k ss) \<Longrightarrow> StepResult.status r = ''success''"
  by (induction ss arbitrary: k) auto

lemma skipped_results_status:
  "r \<in> set (skipped_results clk k ss) \<Longrightarrow> StepResult.status r = ''skipped''"
  by (induction ss arbitrary: k) auto

lemma ok_results_nth:
  "i < length ss \<Longrightarrow>
   ok_results clk k ss ! i =
     \<lparr>name = ss ! i, StepResult.status = ''success'', StepResult.started_at = clk (k + 2 * i),
      StepResult.finished_at = clk (k + 2 * i + 1), message = ''OK''\<rparr>"
proof (induction ss arbitrary: k i)
  case Nil
  then show ?case by simp
next
  case (Cons s ss)
  show ?case
  proof (cases i)
    case 0
    then show ?thesis by simp
  next
    case (Suc j)
    with Cons.prems have "j < length ss" by simp
    from Cons.IH[OF this, of "Suc (Suc k)"] Suc show ?thesis by simp
  qed
qed

lemma skipped_results_nth:
  "j < length ss \<Longrightarrow>
   skipped_results clk k ss ! j =
     \<lparr>name = ss ! j, StepResult.status = ''skipped'', StepResult.started_at = clk (k + j),
      StepResult.finished_at = clk (k + j), message = ''Skipped due to previous failure.''\<rparr>"
proof (induction ss arbitrary: k j)
  case Nil
  then show ?case by simp
next
  case (Cons s ss)
  show ?case
  proof (cases j)
    case 0
    then show ?thesis by simp
  next
    case (Suc m)
    with Cons.prems have "m < length ss" by simp
    from Cons.IH[OF this, of "Suc k"] Suc show ?thesis by simp
  qed
qed

lemma ok_events_Nil: "ok_events rid d clk k [] = []"
  by (simp add: ok_events_def)

lemma ok_events_Cons:
  "ok_events rid d clk k (s # ss) =
     [Now (clk k), Log INFO (''Step started: '' @ s) rid, Sleep (py_max (Fin 0) d),
      Now (clk (Suc k)), Log INFO (''Step finished: '' @ s @ '' (success)'') rid]
     @ ok_events rid d clk (Suc (Suc k)) ss"
  by (simp add: ok_events_def ok_trace_def)

lemma skipped_events_Nil: "skipped_events clk k [] = []"
  by (simp add: skipped_events_def)

lemma skipped_events_Cons:
  "skipped_events clk k (s # ss) = Now (clk k) # skipped_events clk (Suc k) ss"
  by (simp add: skipped_events_def skipped_trace_def)

lemma failed_events_eq:
  "failed_events rid d clk k s =
     [Now (clk k), Log INFO (''Step started: '' @ s) rid, Sleep (py_max (Fin 0) d),
      Now (clk (Suc k)),
      Log ERROR (''Simulated failure at step '' @ [CHR 0x27] @ s @ [CHR 0x27] @ ''.'') rid]"
  by (simp add: failed_events_def failed_trace_def failed_result_def)





lemma skip_loop_eq:
  "skip_loop rem rs w =
     (rs @ skipped_results (clock w) (ticks w) rem,
      w\<lparr>ticks := ticks w + length rem,
        events := events w @ skipped_events (clock w) (ticks w) rem\<rparr>)"
  by (induction rem arbitrary: rs w)
    (simp_all add: utc_now_iso_def skipped_events_Nil skipped_events_Cons)

lemma py_max_zero_cases:
  "py_max (Fin 0) d = PInf \<or> (\<exists>r. py_max (Fin 0) d = Fin r \<and> 0 \<le> r)"
  by (cases d) (auto simp add: py_max_def)

lemma time_sleep_clamped:
  "time_sleep (py_max (Fin 0) d) w =
     (if sleep_accepts (py_max (Fin 0) d)
      then (Inr (), w\<lparr>events := events w @ [Sleep (py_max (Fin 0) d)]\<rparr>)
      else (Inl OverflowError, w))"
proof -
  from py_max_zero_cases[of d] show ?thesis
  proof
    assume "py_max (Fin 0) d = PInf"
    then show ?thesis by simp
  next
    assume "\<exists>r. py_max (Fin 0) d = Fin r \<and> 0 \<le> r"
    then obtain r where r: "py_max (Fin 0) d = Fin r" "0 \<le> r" by blast
    then have "0 \<le> r * 10 ^ 9" by simp
    then have "\<not> r * 10 ^ 9 < - (2 ^ 63)" by simp
    with r show ?thesis by auto
  qed
qed

lemma sleep_accepts_iff:
  "sleep_accepts x \<longleftrightarrow> fst (time_sleep x w) = Inr ()"
proof (cases x)
  case (Fin d)
  have "0 \<le> d \<Longrightarrow> \<not> d * 10 ^ 9 < - (2 ^ 63)"
  proof -
    assume "0 \<le> d"
    then have "0 \<le> d * 10 ^ 9" by simp
    then show ?thesis by simp
  qed
  with Fin show ?thesis by auto
qed simp_all

lemma list_index_first:
  "f \<notin> set pre \<Longrightarrow> list_index (pre @ f # post) f = Inr (length pre)"
  by (induction pre) auto

lemma step_loop_sleep_error:
  "\<not> sleep_accepts (py_max (Fin 0) d) \<Longrightarrow>
   step_loop S rid fs d (s # todo) (rs, ov) w =
     (Inl OverflowError,
      w\<lparr>ticks := Suc (ticks w),
        events := events w @ [Now (clock w (ticks w)), Log INFO (''Step started: '' @ s) rid]\<rparr>)"
  by (simp add: utc_now_iso_def time_sleep_clamped logger_info_def)

lemma step_loop_ok_step:
  "sleep_accepts (py_max (Fin 0) d) \<Longrightarrow> \<not> fails_at fs s \<Longrightarrow>
   step_loop S rid fs d (s # todo) (rs, ov) w =
     step_loop S rid fs d todo (rs @ ok_results (clock w) (ticks w) [s], ov)
       (w\<lparr>ticks := ticks w + 2,
          events := events w @ ok_events rid d (clock w) (ticks w) [s]\<rparr>)"
  by (simp add: utc_now_iso_def time_sleep_clamped logger_info_def ok_events_Nil ok_events_Cons)

lemma step_loop_fail_step:
  "sleep_accepts (py_max (Fin 0) d) \<Longrightarrow> fails_at fs s \<Longrightarrow> list_index S s = Inr i \<Longrightarrow>
   step_loop S rid fs d (s # todo) (rs, ov) w =
     (Inr (rs @ failed_result (clock w) (ticks w) s
               # skipped_results (clock w) (ticks w + 2) (drop (Suc i) S), ''failed''),
      w\<lparr>ticks := ticks w + 2 + length (drop (Suc i) S),
        events := events w @ failed_events rid d (clock w) (ticks w) s
                    @ skipped_events (clock w) (ticks w + 2) (drop (Suc i) S)\<rparr>)"
  by (simp add: utc_now_iso_def time_sleep_clamped logger_info_def logger_error_def
        skip_loop_eq failed_result_def failed_events_eq Let_def)

lemma ok_results_append:
  "ok_results clk k (xs @ ys) = ok_results clk k xs @ ok_results clk (k + 2 * length xs) ys"
  by (induction xs arbitrary: k) simp_all

lemma ok_events_append:
  "ok_events rid d clk k (xs @ ys) =
     ok_events rid d clk k xs @ ok_events rid d clk (k + 2 * length xs) ys"
  by (induction xs arbitrary: k) (simp_all add: ok_events_Nil ok_events_Cons)

lemma step_loop_prefix:
  "sleep_accepts (py_max (Fin 0) d) \<Longrightarrow> \<forall>s\<in>set pre. \<not> fails_at fs s \<Longrightarrow>
   step_loop S rid fs d (pre @ rest) (rs, ov) w =
     step_loop S rid fs d rest (rs @ ok_results (clock w) (ticks w) pre, ov)
       (w\<lparr>ticks := ticks w + 2 * length pre,
          events := events w @ ok_events rid d (clock w) (ticks w) pre\<rparr>)"
proof (induction pre arbitrary: rs w)
  case Nil
  show ?case by (simp add: ok_events_Nil)
next
  case (Cons s pre)
  then have acc: "sleep_accepts (py_max (Fin 0) d)"
    and nf: "\<not> fails_at fs s" and rest: "\<forall>s\<in>set pre. \<not> fails_at fs s"
    by simp_all
  have "step_loop S rid fs d ((s # pre) @ rest) (rs, ov) w =
        step_loop S rid fs d (pre @ rest) (rs @ ok_results (clock w) (ticks w) [s], ov)
          (w\<lparr>ticks := ticks w + 2,
             events := events w @ ok_events rid d (clock w) (ticks w) [s]\<rparr>)"
    using step_loop_ok_step[OF acc nf] by simp
  also have "\<dots> =
        step_loop S rid fs d rest (rs @ ok_results (clock w) (ticks w) (s # pre), ov)
          (w\<lparr>ticks := ticks w + 2 * length (s # pre),
             events := events w @ ok_events rid d (clock w) (ticks w) (s # pre)\<rparr>)"
    using Cons.IH[OF acc rest] by (simp add: ok_events_Nil ok_events_Cons)
  finally show ?case .
qed

lemma step_loop_all_ok:
  assumes "sleep_accepts (py_max (Fin 0) d)" and "\<forall>s\<in>set S. \<not> fails_at fs s"
  shows "step_loop S rid fs d S ([], ov) w =
           (Inr (ok_results (clock w) (ticks w) S, ov),
            w\<lparr>ticks := ticks w + 2 * length S,
              events := events w @ ok_events rid d (clock w) (ticks w) S\<rparr>)"
  using step_loop_prefix[OF assms, of S rid "[]" "[]" ov w] by simp

lemma step_loop_first_failure:
  assumes "sleep_accepts (py_max (Fin 0) d)"
    and "S = pre @ f # post" and "f \<notin> set pre" and "f \<noteq> []"
  shows "step_loop S rid (Some f) d S ([], ov) w =
           (Inr (ok_results (clock w) (ticks w) pre
                   @ failed_result (clock w) (ticks w + 2 * length pre) f
                   # skipped_results (clock w) (ticks w + 2 * length pre + 2) post,
                 ''failed''),
            w\<lparr>ticks := ticks w + 2 * length pre + 2 + length post,
              events := events w @ ok_events rid d (clock w) (ticks w) pre
                          @ failed_events rid d (clock w) (ticks w + 2 * length pre) f
                          @ skipped_events (clock w) (ticks w + 2 * length pre + 2) post\<rparr>)"
proof -
  have pre_ok: "\<forall>s\<in>set pre. \<not> fails_at (Some f) s"
    using assms(3) by auto
  have idx: "list_index S f = Inr (length pre)"
    using assms(2,3) by (simp add: list_index_first)
  have dr: "drop (Suc (length pre)) S = post"
    using assms(2) by simp
  have fl: "fails_at (Some f) f"
    using assms(4) by simp
  have "step_loop S rid (Some f) d (pre @ f # post) ([], ov) w =
        step_loop S rid (Some f) d (f # post) ([] @ ok_results (clock w) (ticks w) pre, ov)
          (w\<lparr>ticks := ticks w + 2 * length pre,
             events := events w @ ok_events rid d (clock w) (ticks w) pre\<rparr>)"
    by (rule step_loop_prefix[OF assms(1) pre_ok])
  also have "\<dots> =
        (Inr (ok_results (clock w) (ticks w) pre
                   @ failed_result (clock w) (ticks w + 2 * length pre) f
                   # skipped_results (clock w) (ticks w + 2 * length pre + 2) post,
                 ''failed''),
            w\<lparr>ticks := ticks w + 2 * length pre + 2 + length post,
              events := events w @ ok_events rid d (clock w) (ticks w) pre
                          @ failed_events rid d (clock w) (ticks w + 2 * length pre) f
                          @ skipped_events (clock w) (ticks w + 2 * length pre + 2) post\<rparr>)"
    using step_loop_fail_step[OF assms(1) fl idx] dr by simp
  finally show ?thesis using assms(2) by simp
qed

lemma step_loop_cases:
  assumes "sleep_accepts (py_max (Fin 0) d)"
  obtains
    (all_ok) "\<forall>s\<in>set S. \<not> fails_at fs s"
      "step_loop S rid fs d S ([], ov) w =
         (Inr (ok_results (clock w) (ticks w) S, ov),
          w\<lparr>ticks := ticks w + 2 * length S,
            events := events w @ ok_events rid d (clock w) (ticks w) S\<rparr>)"
  | (failure) pre f post where "S = pre @ f # post" "f \<notin> set pre" "f \<noteq> []" "fs = Some f"
      "step_loop S rid fs d S ([], ov) w =
         (Inr (ok_results (clock w) (ticks w) pre
                 @ failed_result (clock w) (ticks w + 2 * length pre) f
                 # skipped_results (clock w) (ticks w + 2 * length pre + 2) post,
               ''failed''),
          w\<lparr>ticks := ticks w + 2 * length pre + 2 + length post,
            events := events w @ ok_events rid d (clock w) (ticks w) pre
                        @ failed_events rid d (clock w) (ticks w + 2 * length pre) f
                        @ skipped_events (clock w) (ticks w + 2 * length pre + 2) post\<rparr>)"
proof (cases "\<forall>s\<in>set S. \<not> fails_at fs s")
  case True
  then show ?thesis using all_ok step_loop_all_ok[OF assms] by blast
next
  case False
  then obtain s where s: "s \<in> set S" "fails_at fs s" by blast
  then obtain f where f: "fs = Some f" "f \<noteq> []" "s = f"
    by (cases fs) auto
  with s have "f \<in> set S" by simp
  then obtain pre post where dec: "S = pre @ f # post" "f \<notin> set pre"
    by (meson split_list_first)
  from step_loop_first_failure[OF assms dec f(2)] f(1) dec f(2) show ?thesis
    using failure by blast
qed

lemma step_loop_Inr_cases:
  assumes "step_loop S rid fs d S ([], ov0) w = (Inr (rs, ov), w')"
  obtains
    (all_ok) "\<forall>s\<in>set S. \<not> fails_at fs s"
      "rs = ok_results (clock w) (ticks w) S" "ov = ov0"
      "w' = w\<lparr>ticks := ticks w + 2 * length S,
              events := events w @ ok_events rid d (clock w) (ticks w) S\<rparr>"
  | (failure) pre f post where "S = pre @ f # post" "f \<notin> set pre" "f \<noteq> []" "fs = Some f"
      "rs = ok_results (clock w) (ticks w) pre
              @ failed_result (clock w) (ticks w + 2 * length pre) f
              # skipped_results (clock w) (ticks w + 2 * length pre + 2) post"
      "ov = ''failed''"
      "w' = w\<lparr>ticks := ticks w + 2 * length pre + 2 + length post,
              events := events w @ ok_events rid d (clock w) (ticks w) pre
                          @ failed_events rid d (clock w) (ticks w + 2 * length pre) f
                          @ skipped_events (clock w) (ticks w + 2 * length pre + 2) post\<rparr>"
proof (cases "sleep_accepts (py_max (Fin 0) d)")
  case acc: True
  show ?thesis
  proof (cases "\<forall>s\<in>set S. \<not> fails_at fs s")
    case nf: True
    have "(Inr (rs, ov) :: error + StepResult list \<times> string, w') =
         (Inr (ok_results (clock w) (ticks w) S, ov0),
          w\<lparr>ticks := ticks w + 2 * length S,
            events := events w @ ok_events rid d (clock w) (ticks w) S\<rparr>)"
      unfolding assms[symmetric] by (rule step_loop_all_ok[OF acc nf])
    then have "rs = ok_results (clock w) (ticks w) S" "ov = ov0"
      "w' = w\<lparr>ticks := ticks w + 2 * length S,
              events := events w @ ok_events rid d (clock w) (ticks w) S\<rparr>"
      by simp_all
    with nf show ?thesis by (rule all_ok)
  next
    case False
    then obtain s where s: "s \<in> set S" "fails_at fs s" by blast
    then obtain f where f: "fs = Some f" "f \<noteq> []" "s = f"
      by (cases fs) auto
    with s have "f \<in> set S" by simp
    then obtain pre post where dec: "S = pre @ f # post" "f \<notin> set pre"
      by (meson split_list_first)
    have "(Inr (rs, ov) :: error + StepResult list \<times> string, w') =
         (Inr (ok_results (clock w) (ticks w) pre
                 @ failed_result (clock w) (ticks w + 2 * length pre) f
                 # skipped_results (clock w) (ticks w + 2 * length pre + 2) post,
               ''failed''),
          w\<lparr>ticks := ticks w + 2 * length pre + 2 + length post,
            events := events w @ ok_events rid d (clock w) (ticks w) pre
                        @ failed_events rid d (clock w) (ticks w + 2 * length pre) f
                        @ skipped_events (clock w) (ticks w + 2 * length pre + 2) post\<rparr>)"
      unfolding assms[symmetric] f(1) by (rule step_loop_first_failure[OF acc dec f(2)])
    then have "rs = ok_results (clock w) (ticks w) pre
              @ failed_result (clock w) (ticks w + 2 * length pre) f
              # skipped_results (clock w) (ticks w + 2 * length pre + 2) post"
      "ov = ''failed''"
      "w' = w\<lparr>ticks := ticks w + 2 * length pre + 2 + length post,
              events := events w @ ok_events rid d (clock w) (ticks w) pre
                          @ failed_events rid d (clock w) (ticks w + 2 * length pre) f
                          @ skipped_events (clock w) (ticks w + 2 * length pre + 2) post\<rparr>"
      by simp_all
    with dec f(2,1) show ?thesis by (rule failure)
  qed
next
  case False
  show ?thesis
  proof (cases S)
    case Nil
    from assms have "rs = []" "ov = ov0" "w' = w"
      unfolding Nil by simp_all
    then have "rs = ok_results (clock w) (ticks w) S" "ov = ov0"
      "w' = w\<lparr>ticks := ticks w + 2 * length S,
              events := events w @ ok_events rid d (clock w) (ticks w) S\<rparr>"
      unfolding Nil by (simp_all add: ok_events_Nil)
    moreover have "\<forall>s\<in>set S. \<not> fails_at fs s"
      unfolding Nil by simp
    ultimately show ?thesis using all_ok by blast
  next
    case (Cons s ss)
    from step_loop_sleep_error[OF False, of S rid fs s ss "[]" ov0 w] assms
    have False unfolding Cons by simp
    then show ?thesis ..
  qed
qed

lemma step_loop_returns:
  assumes "sleep_accepts (py_max (Fin 0) d)"
  shows "\<exists>rs ov w'. step_loop S rid fs d S ([], ov0) w = (Inr (rs, ov), w')"
  by (cases rule: step_loop_cases[OF assms, of S fs rid ov0 w]) blast+


lemma step_loop_clamp:
  "py_max (Fin 0) d = py_max (Fin 0) d' \<Longrightarrow>
   step_loop S rid fs d todo st w = step_loop S rid fs d' todo st w"
proof (induction todo arbitrary: st w)
  case Nil
  show ?case by (cases st) simp
next
  case (Cons s todo)
  show ?case
    by (cases st) (simp add: Cons split: prod.splits sum.splits)
qed

section \<open>Lemmas about the approval gate and the run\<close>

lemma started_world_fields:
  "clock (started_world art rid w) = clock w"
  "ticks (started_world art rid w) = Suc (ticks w)"
  "stdin (started_world art rid w) = stdin w"
  "events (started_world art rid w) =
     events w @ [Now (clock w (ticks w)), Log INFO (''Run started. artifact='' @ art) rid]"
  by (simp_all add: started_world_def utc_now_iso_def logger_info_def)

lemma approval_gate_Inr:
  "approval_gate rid rma ay w = (Inr a, w') \<Longrightarrow> a"
  by (auto simp add: approval_gate_def split: if_splits prod.splits sum.splits)


lemma approval_gate_not_required:
  "approval_gate rid False ay w = (Inr True, w)"
  by (simp add: approval_gate_def)

lemma run_pipeline_on_unknown:
  "\<not> artifact_exists art \<Longrightarrow>
   run_pipeline_on S rid art rma ay fs d w =
     (Inl (ArtifactNotFoundError (''Unknown artifact: '' @ art)),
      w\<lparr>ticks := Suc (ticks w),
        events := events w @ [Now (clock w (ticks w)),
                              Log INFO (''Run started. artifact='' @ art) rid,
                              Log ERROR (''Unknown artifact: '' @ art) rid]\<rparr>)"
  by (simp add: run_pipeline_on_def utc_now_iso_def logger_info_def logger_error_def)

lemma run_pipeline_on_gate_error:
  "artifact_exists art \<Longrightarrow>
   approval_gate rid rma ay (started_world art rid w) = (Inl e, w3) \<Longrightarrow>
   run_pipeline_on S rid art rma ay fs d w = (Inl e, w3)"
  by (simp add: run_pipeline_on_def started_world_def utc_now_iso_def)

lemma run_pipeline_on_loop_error:
  "artifact_exists art \<Longrightarrow>
   approval_gate rid rma ay (started_world art rid w) = (Inr a, w3) \<Longrightarrow>
   step_loop S rid fs d S ([], ''success'') w3 = (Inl e, w4) \<Longrightarrow>
   run_pipeline_on S rid art rma ay fs d w = (Inl e, w4)"
  by (simp add: run_pipeline_on_def started_world_def utc_now_iso_def)

lemma run_pipeline_on_steps:
  "artifact_exists art \<Longrightarrow>
   approval_gate rid rma ay (started_world art rid w) = (Inr a, w3) \<Longrightarrow>
   step_loop S rid fs d S ([], ''success'') w3 = (Inr (rs, ov), w4) \<Longrightarrow>
   run_pipeline_on S rid art rma ay fs d w =
     (Inr \<lparr>run_id = rid, artifact = art, approved = a, status = ov,
           started_at = clock w (ticks w), finished_at = clock w4 (ticks w4), steps = rs\<rparr>,
      logger_info (''Run finished. status='' @ ov) rid (snd (utc_now_iso w4)))"
  by (simp add: run_pipeline_on_def started_world_def utc_now_iso_def)

lemma run_pipeline_on_Inr:
  assumes "run_pipeline_on S rid art rma ay fs d w = (Inr r, w')"
  obtains w3 rs ov w4 where
    "artifact_exists art"
    "approval_gate rid rma ay (started_world art rid w) = (Inr True, w3)"
    "step_loop S rid fs d S ([], ''success'') w3 = (Inr (rs, ov), w4)"
    "r = \<lparr>run_id = rid, artifact = art, approved = True, status = ov,
          started_at = clock w (ticks w), finished_at = clock w4 (ticks w4), steps = rs\<rparr>"
    "w' = logger_info (''Run finished. status='' @ ov) rid (snd (utc_now_iso w4))"
proof -
  let ?w2 = "started_world art rid w"
  have ex: "artifact_exists art"
    using assms run_pipeline_on_unknown[of art S rid rma ay fs d w] by auto
  obtain g w3 where gate: "approval_gate rid rma ay ?w2 = (g, w3)"
    by (cases "approval_gate rid rma ay ?w2")
  have "\<exists>a. g = Inr a"
  proof (cases g)
    case (Inl e)
    with run_pipeline_on_gate_error[OF ex, of rid rma ay w e w3 S fs d] gate assms
    show ?thesis by simp
  next
    case (Inr a)
    then show ?thesis by simp
  qed
  then obtain a where a: "g = Inr a" by blast
  with gate approval_gate_Inr have "a" by blast
  with a gate have gate': "approval_gate rid rma ay ?w2 = (Inr True, w3)" by simp
  obtain res w4 where loop: "step_loop S rid fs d S ([], ''success'') w3 = (res, w4)"
    by (cases "step_loop S rid fs d S ([], ''success'') w3")
  have "\<exists>x. res = Inr x"
  proof (cases res)
    case (Inl e)
    with run_pipeline_on_loop_error[OF ex gate', of S fs d e w4] loop assms
    show ?thesis by simp
  next
    case (Inr x)
    then show ?thesis by simp
  qed
  then obtain x where "res = Inr x" by blast
  then obtain rs ov where res: "res = Inr (rs, ov)" by (cases x) simp
  from run_pipeline_on_steps[OF ex gate' loop[unfolded res]] assms
  have "r = \<lparr>run_id = rid, artifact = art, approved = True, status = ov,
          started_at = clock w (ticks w), finished_at = clock w4 (ticks w4), steps = rs\<rparr>"
    and "w' = logger_info (''Run finished. status='' @ ov) rid (snd (utc_now_iso w4))"
    by simp_all
  with that ex gate' loop res show ?thesis by blast
qed

section \<open>The step loop: failure and skipping\<close>




section \<open>The step loop: no failure\<close>




section \<open>Errors raised before the steps\<close>

lemma require_approval_False:
  assumes "fst (require_approval p ay w) = Inr False"
  obtains l ls where "\<not> ay" "stdin w = l # ls"
    "lower (strip l) \<notin> set [''y'', ''yes'', ''o'', ''oui'']"
proof -
  from assms have nay: "\<not> ay"
    by (auto simp add: require_approval_def)
  from assms nay obtain l ls where st: "stdin w = l # ls"
    by (cases "stdin w") (auto simp add: require_approval_def input_def)
  from assms nay st have "lower (strip l) \<notin> set [''y'', ''yes'', ''o'', ''oui'']"
    by (simp add: require_approval_def input_def Let_def)
  with nay st that show ?thesis by blast
qed

lemma approval_gate_rejected:
  assumes "\<not> ay" and "stdin w = l # ls"
    and "lower (strip l) \<notin> set [''y'', ''yes'', ''o'', ''oui'']"
  shows "approval_gate rid True ay w =
           (Inl (ApprovalRejectedError ''Approval rejected by user.''),
            w\<lparr>stdin := ls,
              events := events w @ [Log INFO ''Waiting for manual approval...'' rid,
                                    Input default_prompt,
                                    Log WARNING ''Approval rejected.'' rid]\<rparr>)"
  using assms
  by (simp add: approval_gate_def require_approval_def input_def logger_info_def
        logger_warning_def)

text \<open>The answers \<open>y\<close> followed by a no-break space (\<open>0xA0\<close>) and \<open>OUI\<close> after a next-line
  character (\<open>0x85\<close>) are approvals, as \<^verbatim>\<open>str.strip()\<close> removes both characters.\<close>

lemma require_approval_latin1_space:
  "fst (require_approval default_prompt False (sample_world [[CHR ''y'', CHR 0xA0]])) = Inr True"
  "fst (require_approval default_prompt False (sample_world [CHR 0x85 # ''OUI''])) = Inr True"
  by (simp_all add: require_approval_def input_def sample_world_def strip_def lower_def
        lower_char_def upper_letters_def lower_letters_def is_space_def)

text \<open>
  Claim C3. For an artifact key that is not in the registry, run_pipeline raises
  ArtifactNotFoundError and returns no RunResult. The world it leaves behind differs from
  the one it started in by one clock reading (\<^verbatim>\<open>started_at\<close>) and two log records: the
  console was not asked (no call of \<^verbatim>\<open>input\<close>, the pending lines untouched) and no
  step was run (no sleep, no step log, no further clock reading).
\<close>

theorem unknown_artifact_raises:
  assumes "\<not> artifact_exists art"
  shows "run_pipeline_on all_steps rid art rma ay fail_step d w =
           (Inl (ArtifactNotFoundError (''Unknown artifact: '' @ art)),
            w\<lparr>ticks := Suc (ticks w),
              events := events w @ [Now (clock w (ticks w)),
                                    Log INFO (''Run started. artifact='' @ art) rid,
                                    Log ERROR (''Unknown artifact: '' @ art) rid]\<rparr>)
       \<and> input_calls (events (snd (run_pipeline_on all_steps rid art rma ay fail_step d w)))
           = input_calls (events w)
       \<and> sleep_calls (events (snd (run_pipeline_on all_steps rid art rma ay fail_step d w)))
           = sleep_calls (events w)
       \<and> stdin (snd (run_pipeline_on all_steps rid art rma ay fail_step d w)) = stdin w"
  by (simp add: run_pipeline_on_unknown[OF assms] input_calls_def sleep_calls_def)

text \<open>C3 at the key \<open>unknown@0.0.0\<close>, with approval required and an answer waiting on the
  console: the answer is not consumed.\<close>

theorem unknown_artifact_raises_witness:
  "\<not> artifact_exists ''unknown@0.0.0'' \<and>
   run_pipeline ''r1'' ''unknown@0.0.0'' True False (Some ''test'') (Fin 1) (sample_world [''y'']) =
     (Inl (ArtifactNotFoundError ''Unknown artifact: unknown@0.0.0''),
      (sample_world [''y''])
        \<lparr>ticks := 1,
         events := [Now [],
                    Log INFO ''Run started. artifact=unknown@0.0.0'' ''r1'',
                    Log ERROR ''Unknown artifact: unknown@0.0.0'' ''r1'']\<rparr>) \<and>
   stdin (snd (run_pipeline ''r1'' ''unknown@0.0.0'' True False (Some ''test'') (Fin 1)
                 (sample_world [''y'']))) = [''y'']"
proof -
  have h: "\<not> artifact_exists ''unknown@0.0.0''"
    by (simp add: artifact_exists_def DEFAULT_ARTIFACTS_def)
  from unknown_artifact_raises[OF h, of PIPELINE_STEPS "''r1''" True False "Some ''test''" "Fin 1"
         "sample_world [''y'']"] h
  show ?thesis
    by (simp add: run_pipeline_def sample_world_def)
qed

text \<open>
  Claim C4. When the artifact is known, manual approval is required and the approval
  decision is \<^verbatim>\<open>False\<close> (\<open>require_approval\<close>, asked in this world, answers
  \<^verbatim>\<open>False\<close>), run_pipeline raises ApprovalRejectedError and returns no RunResult. The
  world it leaves behind holds one clock reading (\<^verbatim>\<open>started_at\<close>), the consumed console
  line and five events, none of them a step's: no step was run and no StepResult built.
\<close>

theorem approval_rejected_raises:
  assumes "artifact_exists art" and "rma"
    and "fst (require_approval default_prompt ay w) = Inr False"
  shows "run_pipeline_on all_steps rid art rma ay fail_step d w =
           (Inl (ApprovalRejectedError ''Approval rejected by user.''),
            w\<lparr>ticks := Suc (ticks w), stdin := tl (stdin w),
              events := events w @ [Now (clock w (ticks w)),
                                    Log INFO (''Run started. artifact='' @ art) rid,
                                    Log INFO ''Waiting for manual approval...'' rid,
                                    Input default_prompt,
                                    Log WARNING ''Approval rejected.'' rid]\<rparr>)
       \<and> sleep_calls (events (snd (run_pipeline_on all_steps rid art rma ay fail_step d w)))
           = sleep_calls (events w)"
proof -
  let ?w2 = "started_world art rid w"
  from assms(3) obtain l ls where nay: "\<not> ay" and st: "stdin w = l # ls"
    and ans: "lower (strip l) \<notin> set [''y'', ''yes'', ''o'', ''oui'']"
    by (rule require_approval_False)
  have st2: "stdin ?w2 = l # ls"
    using st by (simp add: started_world_fields)
  have gate: "approval_gate rid rma ay ?w2 =
           (Inl (ApprovalRejectedError ''Approval rejected by user.''),
            ?w2\<lparr>stdin := ls,
              events := events ?w2 @ [Log INFO ''Waiting for manual approval...'' rid,
                                    Input default_prompt,
                                    Log WARNING ''Approval rejected.'' rid]\<rparr>)"
    using approval_gate_rejected[OF nay st2 ans] assms(2) by simp
  have run: "run_pipeline_on all_steps rid art rma ay fail_step d w =
           (Inl (ApprovalRejectedError ''Approval rejected by user.''),
            w\<lparr>ticks := Suc (ticks w), stdin := tl (stdin w),
              events := events w @ [Now (clock w (ticks w)),
                                    Log INFO (''Run started. artifact='' @ art) rid,
                                    Log INFO ''Waiting for manual approval...'' rid,
                                    Input default_prompt,
                                    Log WARNING ''Approval rejected.'' rid]\<rparr>)"
    using run_pipeline_on_gate_error[OF assms(1) gate] st
    by (simp add: started_world_def utc_now_iso_def logger_info_def)
  show ?thesis
    by (simp add: run sleep_calls_def)
qed

text \<open>C4 at the first artifact of the registry, approval required, no \<^verbatim>\<open>--yes\<close>, and the
  answer \<open>no\<close> on the console.\<close>

theorem approval_rejected_raises_witness:
  "artifact_exists ''api-service@1.0.0'' \<and>
   fst (require_approval default_prompt False (sample_world [''no''])) = Inr False \<and>
   run_pipeline ''r1'' ''api-service@1.0.0'' True False None (Fin 1) (sample_world [''no'']) =
     (Inl (ApprovalRejectedError ''Approval rejected by user.''),
      (sample_world [''no''])
        \<lparr>ticks := 1, stdin := [],
         events := [Now [],
                    Log INFO ''Run started. artifact=api-service@1.0.0'' ''r1'',
                    Log INFO ''Waiting for manual approval...'' ''r1'',
                    Input ''Approve deployment? (y/N): '',
                    Log WARNING ''Approval rejected.'' ''r1'']\<rparr>)"
proof -
  have h1: "artifact_exists ''api-service@1.0.0''"
    by (simp add: artifact_exists_def DEFAULT_ARTIFACTS_def)
  have h3: "fst (require_approval default_prompt False (sample_world [''no''])) = Inr False"
    by (simp add: require_approval_def input_def sample_world_def strip_def lower_def
          lower_char_def upper_letters_def lower_letters_def is_space_def)
  from approval_rejected_raises[OF h1 _ h3, of True PIPELINE_STEPS "''r1''" None "Fin 1"] h1 h3
  show ?thesis
    by (simp add: run_pipeline_def sample_world_def default_prompt_def)
qed

section \<open>Automatic approval\<close>



section \<open>The assembled RunResult\<close>

lemma failure_results_nth:
  fixes clk :: "nat \<Rightarrow> string"
  defines "rs \<equiv> \<lambda>t pre f post.
             ok_results clk t pre @ failed_result clk (t + 2 * length pre) f
               # skipped_results clk (t + 2 * length pre + 2) post"
  shows "i < length pre \<Longrightarrow> StepResult.status (rs t pre f post ! i) = ''success''"
    and "rs t pre f post ! length pre = failed_result clk (t + 2 * length pre) f"
    and "length pre < j \<Longrightarrow> j < length pre + 1 + length post \<Longrightarrow>
         rs t pre f post ! j =
           \<lparr>name = post ! (j - length pre - 1), StepResult.status = ''skipped'',
            StepResult.started_at = clk (t + length pre + j + 1),
            StepResult.finished_at = clk (t + length pre + j + 1),
            message = ''Skipped due to previous failure.''\<rparr>"
proof -
  show "i < length pre \<Longrightarrow> StepResult.status (rs t pre f post ! i) = ''success''"
    by (simp add: rs_def nth_append length_ok_results ok_results_nth)
  show "rs t pre f post ! length pre = failed_result clk (t + 2 * length pre) f"
    by (simp add: rs_def nth_append length_ok_results)
  show "rs t pre f post ! j =
           \<lparr>name = post ! (j - length pre - 1), StepResult.status = ''skipped'',
            StepResult.started_at = clk (t + length pre + j + 1),
            StepResult.finished_at = clk (t + length pre + j + 1),
            message = ''Skipped due to previous failure.''\<rparr>"
    if a: "length pre < j" and b: "j < length pre + 1 + length post"
  proof -
    from a b have k: "j - length pre - 1 < length post" by arith
    from a have "rs t pre f post ! j =
        skipped_results clk (t + 2 * length pre + 2) post ! (j - length pre - 1)"
      by (simp add: rs_def nth_append length_ok_results nth_Cons')
    also have "\<dots> = \<lparr>name = post ! (j - length pre - 1), StepResult.status = ''skipped'',
            StepResult.started_at = clk (t + 2 * length pre + 2 + (j - length pre - 1)),
            StepResult.finished_at = clk (t + 2 * length pre + 2 + (j - length pre - 1)),
            message = ''Skipped due to previous failure.''\<rparr>"
      by (rule skipped_results_nth[OF k])
    also from a have "t + 2 * length pre + 2 + (j - length pre - 1) = t + length pre + j + 1"
      by arith
    finally show ?thesis .
  qed
qed

lemma step_loop_failed_index:
  assumes "step_loop S rid fs d S ([], ov0) w = (Inr (rs, ov), w')"
    and "i < length rs" and "StepResult.status (rs ! i) = ''failed''"
  obtains pre f post where "S = pre @ f # post" "f \<notin> set pre" "f \<noteq> []" "fs = Some f"
    "i = length pre" "ov = ''failed''"
    "rs = ok_results (clock w) (ticks w) pre
            @ failed_result (clock w) (ticks w + 2 * length pre) f
            # skipped_results (clock w) (ticks w + 2 * length pre + 2) post"
    "events w' = events w @ ok_events rid d (clock w) (ticks w) pre
                   @ failed_events rid d (clock w) (ticks w + 2 * length pre) f
                   @ skipped_events (clock w) (ticks w + 2 * length pre + 2) post"
  using assms(1)
proof (cases rule: step_loop_Inr_cases)
  case all_ok
  with assms(1) have rs: "rs = ok_results (clock w) (ticks w) S" by simp
  with assms(2) have "rs ! i \<in> set (ok_results (clock w) (ticks w) S)" by simp
  then have "StepResult.status (rs ! i) = ''success''" by (rule ok_results_status)
  with assms(3) show ?thesis by simp
next
  case (failure pre f post)
  with assms(1) have rs: "rs = ok_results (clock w) (ticks w) pre
            @ failed_result (clock w) (ticks w + 2 * length pre) f
            # skipped_results (clock w) (ticks w + 2 * length pre + 2) post"
    and ov: "ov = ''failed''" by simp_all
  from rs assms(2) have len: "i < length pre + 1 + length post"
    by (simp add: length_ok_results length_skipped_results)
  have "i = length pre"
  proof (rule ccontr)
    assume ne: "i \<noteq> length pre"
    show False
    proof (cases "i < length pre")
      case True
      from failure_results_nth(1)[OF True] rs assms(3) show False by simp
    next
      case False
      with ne have "length pre < i" by simp
      from failure_results_nth(3)[OF this len] rs assms(3) show False by simp
    qed
  qed
  moreover from failure(7) have "events w' = events w @ ok_events rid d (clock w) (ticks w) pre
                   @ failed_events rid d (clock w) (ticks w + 2 * length pre) f
                   @ skipped_events (clock w) (ticks w + 2 * length pre + 2) post"
    by simp
  ultimately show ?thesis using that failure(1-4) ov rs by blast
qed

lemma scenario_B:
  "\<exists>w'. run_pipeline_on PIPELINE_STEPS ''r1'' ''api-service@1.0.0'' False False (Some ''test'') (Fin 0)
          (sample_world []) =
     (Inr \<lparr>run_id = ''r1'', artifact = ''api-service@1.0.0'', approved = True,
           status = ''failed'', started_at = [], finished_at = ''IIIIIII'',
           steps =
             [\<lparr>name = ''build'', StepResult.status = ''success'', StepResult.started_at = ''I'',
               StepResult.finished_at = ''II'', message = ''OK''\<rparr>,
              \<lparr>name = ''test'', StepResult.status = ''failed'', StepResult.started_at = ''III'',
               StepResult.finished_at = ''IIII'',
               message = ''Simulated failure at step '' @ [CHR 0x27] @ ''test'' @ [CHR 0x27] @ ''.''\<rparr>,
              \<lparr>name = ''package'', StepResult.status = ''skipped'',
               StepResult.started_at = ''IIIII'', StepResult.finished_at = ''IIIII'',
               message = ''Skipped due to previous failure.''\<rparr>,
              \<lparr>name = ''deploy'', StepResult.status = ''skipped'',
               StepResult.started_at = ''IIIIII'', StepResult.finished_at = ''IIIIII'',
               message = ''Skipped due to previous failure.''\<rparr>]\<rparr>, w')"
  by (simp add: run_pipeline_on_def PIPELINE_STEPS_def artifact_exists_def
        DEFAULT_ARTIFACTS_def approval_gate_def utc_now_iso_def py_max_def logger_info_def
        logger_error_def sample_world_def Let_def)

lemma scenario_A_approved:
  "\<exists>w'. run_pipeline_on PIPELINE_STEPS ''r1'' ''api-service@1.0.0'' True False None (Fin 0)
          (sample_world ['' Oui '']) =
     (Inr \<lparr>run_id = ''r1'', artifact = ''api-service@1.0.0'', approved = True,
           status = ''success'', started_at = [], finished_at = ''IIIIIIIII'',
           steps =
             [\<lparr>name = ''build'', StepResult.status = ''success'', StepResult.started_at = ''I'',
               StepResult.finished_at = ''II'', message = ''OK''\<rparr>,
              \<lparr>name = ''test'', StepResult.status = ''success'', StepResult.started_at = ''III'',
               StepResult.finished_at = ''IIII'', message = ''OK''\<rparr>,
              \<lparr>name = ''package'', StepResult.status = ''success'',
               StepResult.started_at = ''IIIII'', StepResult.finished_at = ''IIIIII'',
               message = ''OK''\<rparr>,
              \<lparr>name = ''deploy'', StepResult.status = ''success'',
               StepResult.started_at = ''IIIIIII'', StepResult.finished_at = ''IIIIIIII'',
               message = ''OK''\<rparr>]\<rparr>, w')"
  by (simp add: run_pipeline_on_def PIPELINE_STEPS_def artifact_exists_def
        DEFAULT_ARTIFACTS_def approval_gate_def require_approval_def input_def strip_def
        lower_def lower_char_def upper_letters_def lower_letters_def is_space_def
        default_prompt_def
        utc_now_iso_def py_max_def logger_info_def sample_world_def Let_def)

text \<open>
  Claim C6. Every RunResult that run_pipeline returns holds exactly one StepResult per
  step of the sequence, named after the steps in order; and after a result with status
  \<open>failed\<close> every later result is there, with status \<open>skipped\<close>.
\<close>

theorem run_result_one_result_per_step:
  assumes "run_pipeline_on all_steps rid art rma ay fail_step d w = (Inr r, w')"
  shows "length (steps r) = length all_steps
       \<and> map name (steps r) = all_steps
       \<and> (\<forall>i j. i < j \<and> j < length all_steps
                  \<and> StepResult.status (steps r ! i) = ''failed''
              \<longrightarrow> StepResult.status (steps r ! j) = ''skipped'')"
proof -
  from assms obtain w3 rs ov w4 where
    loop: "step_loop all_steps rid fail_step d all_steps ([], ''success'') w3 = (Inr (rs, ov), w4)"
    and r: "r = \<lparr>run_id = rid, artifact = art, approved = True, status = ov,
          started_at = clock w (ticks w), finished_at = clock w4 (ticks w4), steps = rs\<rparr>"
    by (rule run_pipeline_on_Inr)
  have shape: "length rs = length all_steps \<and> map name rs = all_steps"
    using loop
  proof (cases rule: step_loop_Inr_cases)
    case all_ok
    with loop show ?thesis
      by (auto simp add: length_ok_results names_ok_results)
  next
    case (failure pre f post)
    with loop show ?thesis
      by (auto simp add: length_ok_results length_skipped_results names_ok_results
            names_skipped_results failed_result_def)
  qed
  have skip: "StepResult.status (rs ! j) = ''skipped''"
    if ij: "i < j" and j: "j < length all_steps"
      and fl: "StepResult.status (rs ! i) = ''failed''" for i j
  proof -
    from ij j shape have i: "i < length rs" by simp
    from loop i fl obtain pre f post where
      dec: "all_steps = pre @ f # post" and ip: "i = length pre"
      and rs: "rs = ok_results (clock w3) (ticks w3) pre
            @ failed_result (clock w3) (ticks w3 + 2 * length pre) f
            # skipped_results (clock w3) (ticks w3 + 2 * length pre + 2) post"
      by (rule step_loop_failed_index)
    from ij ip have a: "length pre < j" by simp
    from j dec have b: "j < length pre + 1 + length post" by simp
    from failure_results_nth(3)[OF a b] rs show ?thesis by simp
  qed
  from shape skip r show ?thesis by auto
qed

text \<open>C6 at the module's steps with fail step \<open>test\<close> (scenario B): four results; the
  second has status \<open>failed\<close>, the third and fourth are present with status \<open>skipped\<close>.\<close>

theorem run_result_one_result_per_step_witness:
  "(\<exists>r w'. run_pipeline ''r1'' ''api-service@1.0.0'' False False (Some ''test'') (Fin 0)
              (sample_world []) = (Inr r, w')
      \<and> length (steps r) = length PIPELINE_STEPS
      \<and> map name (steps r) = PIPELINE_STEPS
      \<and> StepResult.status (steps r ! 1) = ''failed''
      \<and> StepResult.status (steps r ! 2) = ''skipped''
      \<and> StepResult.status (steps r ! 3) = ''skipped'')"
proof -
  obtain r w' where
    run: "run_pipeline_on PIPELINE_STEPS ''r1'' ''api-service@1.0.0'' False False (Some ''test'') (Fin 0)
            (sample_world []) = (Inr r, w')"
    and f: "StepResult.status (steps r ! 1) = ''failed''"
    using scenario_B by fastforce
  have n: "length PIPELINE_STEPS = 4"
    by (simp add: PIPELINE_STEPS_def)
  note all = run_result_one_result_per_step[OF run]
  from all have a: "length (steps r) = length PIPELINE_STEPS"
    and b: "map name (steps r) = PIPELINE_STEPS"
    by blast+
  from all have c: "StepResult.status (steps r ! j) = ''skipped''"
    if "i < j" "j < length PIPELINE_STEPS" "StepResult.status (steps r ! i) = ''failed''" for i j
    using that by blast
  have s2: "StepResult.status (steps r ! 2) = ''skipped''"
    using c[of 1 2] f n by simp
  have s3: "StepResult.status (steps r ! 3) = ''skipped''"
    using c[of 1 3] f n by simp
  from run f a b s2 s3 show ?thesis
    unfolding run_pipeline_def by blast
qed

text \<open>
  Claim C7. In every RunResult that run_pipeline returns, the overall status is
  \<open>failed\<close> exactly when some StepResult has status \<open>failed\<close>, and \<open>success\<close> exactly
  when none has.
\<close>

theorem run_status_from_steps:
  assumes "run_pipeline_on all_steps rid art rma ay fail_step d w = (Inr r, w')"
  shows "(RunResult.status r = ''failed''
            \<longleftrightarrow> (\<exists>s\<in>set (steps r). StepResult.status s = ''failed''))
       \<and> (RunResult.status r = ''success''
            \<longleftrightarrow> \<not> (\<exists>s\<in>set (steps r). StepResult.status s = ''failed''))"
proof -
  from assms obtain w3 rs ov w4 where
    loop: "step_loop all_steps rid fail_step d all_steps ([], ''success'') w3 = (Inr (rs, ov), w4)"
    and r: "r = \<lparr>run_id = rid, artifact = art, approved = True, status = ov,
          started_at = clock w (ticks w), finished_at = clock w4 (ticks w4), steps = rs\<rparr>"
    by (rule run_pipeline_on_Inr)
  have "(ov = ''failed'' \<longleftrightarrow> (\<exists>s\<in>set rs. StepResult.status s = ''failed''))
      \<and> (ov = ''success'' \<longleftrightarrow> \<not> (\<exists>s\<in>set rs. StepResult.status s = ''failed''))"
    using loop
  proof (cases rule: step_loop_Inr_cases)
    case all_ok
    with loop have "rs = ok_results (clock w3) (ticks w3) all_steps" and ov: "ov = ''success''"
      by simp_all
    then have "\<forall>s\<in>set rs. StepResult.status s = ''success''"
      by (simp add: ok_results_status)
    then have "\<not> (\<exists>s\<in>set rs. StepResult.status s = ''failed'')"
      by auto
    with ov show ?thesis by simp
  next
    case (failure pre f post)
    with loop have rs: "rs = ok_results (clock w3) (ticks w3) pre
            @ failed_result (clock w3) (ticks w3 + 2 * length pre) f
            # skipped_results (clock w3) (ticks w3 + 2 * length pre + 2) post"
      and ov: "ov = ''failed''"
      by simp_all
    have "StepResult.status (failed_result (clock w3) (ticks w3 + 2 * length pre) f) = ''failed''"
      by (simp add: failed_result_def)
    with rs have "\<exists>s\<in>set rs. StepResult.status s = ''failed''"
      by auto
    with ov show ?thesis by simp
  qed
  with r show ?thesis by simp
qed

text \<open>C7 at scenario B: the run with fail step \<open>test\<close> has overall status \<open>failed\<close> and
  its second StepResult has status \<open>failed\<close>.\<close>

theorem run_status_from_steps_witness:
  "(\<exists>r w'. run_pipeline ''r1'' ''api-service@1.0.0'' False False (Some ''test'') (Fin 0)
              (sample_world []) = (Inr r, w')
      \<and> RunResult.status r = ''failed''
      \<and> RunResult.status r \<noteq> ''success''
      \<and> StepResult.status (steps r ! 1) = ''failed'')"
proof -
  obtain r w' where
    run: "run_pipeline_on PIPELINE_STEPS ''r1'' ''api-service@1.0.0'' False False (Some ''test'') (Fin 0)
            (sample_world []) = (Inr r, w')"
    and f: "StepResult.status (steps r ! 1) = ''failed''" and l: "1 < length (steps r)"
    using scenario_B by fastforce
  from l have "steps r ! 1 \<in> set (steps r)" by (rule nth_mem)
  with f have "\<exists>s\<in>set (steps r). StepResult.status s = ''failed''" by blast
  with run_status_from_steps[OF run]
  have "RunResult.status r = ''failed''" "RunResult.status r \<noteq> ''success''" by simp_all
  with run f show ?thesis
    unfolding run_pipeline_def by blast
qed

text \<open>
  Claim C10. Every RunResult that run_pipeline returns has \<^verbatim>\<open>approved\<close> true and an
  overall status that is \<open>success\<close> or \<open>failed\<close>, never \<open>rejected\<close>; and its artifact is
  in the registry. (An unknown artifact and a rejected approval are the raised errors of
  C3 and C4.)
\<close>

theorem run_result_approved_and_status:
  assumes "run_pipeline_on all_steps rid art rma ay fail_step d w = (Inr r, w')"
  shows "approved r
       \<and> (RunResult.status r = ''success'' \<or> RunResult.status r = ''failed'')
       \<and> RunResult.status r \<noteq> ''rejected''
       \<and> artifact_exists (artifact r)"
proof -
  from assms obtain w3 rs ov w4 where
    ex: "artifact_exists art"
    and loop: "step_loop all_steps rid fail_step d all_steps ([], ''success'') w3 = (Inr (rs, ov), w4)"
    and r: "r = \<lparr>run_id = rid, artifact = art, approved = True, status = ov,
          started_at = clock w (ticks w), finished_at = clock w4 (ticks w4), steps = rs\<rparr>"
    by (rule run_pipeline_on_Inr)
  have "ov = ''success'' \<or> ov = ''failed''"
    using loop
  proof (cases rule: step_loop_Inr_cases)
    case all_ok
    with loop show ?thesis by simp
  next
    case (failure pre f post)
    with loop show ?thesis by simp
  qed
  then have "(ov = ''success'' \<or> ov = ''failed'') \<and> ov \<noteq> ''rejected''"
    by auto
  with r ex show ?thesis by simp
qed

text \<open>C10 at scenario A, with approval required and the answer \<open>oui\<close>: the run returns,
  approved, with status \<open>success\<close>.\<close>

theorem run_result_approved_and_status_witness:
  "(\<exists>r w'. run_pipeline ''r1'' ''api-service@1.0.0'' True False None (Fin 0)
              (sample_world ['' Oui '']) = (Inr r, w')
      \<and> approved r \<and> RunResult.status r = ''success'' \<and> RunResult.status r \<noteq> ''rejected''
      \<and> artifact_exists (artifact r))"
proof -
  obtain r w' where
    run: "run_pipeline_on PIPELINE_STEPS ''r1'' ''api-service@1.0.0'' True False None (Fin 0)
            (sample_world ['' Oui '']) = (Inr r, w')"
    and s: "RunResult.status r = ''success''"
    using scenario_A_approved by fastforce
  from run_result_approved_and_status[OF run] s run show ?thesis
    unfolding run_pipeline_def by blast
qed

section \<open>The failed step and the skipped steps\<close>

lemma concat_map_skipped_trace:
  "concat (map skipped_trace xs) = map (\<lambda>r. Now (StepResult.started_at r)) xs"
  by (induction xs) (simp_all add: skipped_trace_def)

lemma scenario_B_loop:
  "\<exists>w'. step_loop PIPELINE_STEPS ''r1'' (Some ''test'') (Fin 0) PIPELINE_STEPS ([], ''success'')
          (sample_world []) =
     (Inr ([\<lparr>name = ''build'', StepResult.status = ''success'', StepResult.started_at = [],
             StepResult.finished_at = ''I'', message = ''OK''\<rparr>,
            \<lparr>name = ''test'', StepResult.status = ''failed'', StepResult.started_at = ''II'',
             StepResult.finished_at = ''III'',
             message = ''Simulated failure at step '' @ [CHR 0x27] @ ''test'' @ [CHR 0x27] @ ''.''\<rparr>,
            \<lparr>name = ''package'', StepResult.status = ''skipped'',
             StepResult.started_at = ''IIII'', StepResult.finished_at = ''IIII'',
             message = ''Skipped due to previous failure.''\<rparr>,
            \<lparr>name = ''deploy'', StepResult.status = ''skipped'',
             StepResult.started_at = ''IIIII'', StepResult.finished_at = ''IIIII'',
             message = ''Skipped due to previous failure.''\<rparr>], ''failed''), w')"
  by (simp add: PIPELINE_STEPS_def utc_now_iso_def py_max_def logger_info_def
        logger_error_def sample_world_def Let_def)

text \<open>
  Claim C8. When a step fails, that is, when the loop returns a result of status
  \<open>failed\<close> at some position \<open>i\<close>: the step at \<open>i\<close> is the fail step; its result carries
  the message \<open>Simulated failure at step '<s>'.\<close> and two consecutive clock readings, the
  one taken when its own iteration started and the next one (each earlier step consumed
  two readings, and the skipped steps read the clock only afterwards); and every later
  position \<open>j\<close> holds the result of step \<open>j\<close> with status \<open>skipped\<close>, one single clock
  reading as both \<^verbatim>\<open>started_at\<close> and \<^verbatim>\<open>finished_at\<close>, and the message
  \<open>Skipped due to previous failure.\<close> The trace of the loop tells what lies between the
  readings: for each earlier step, the reading of its \<^verbatim>\<open>started_at\<close>, its start log, its
  sleep, the reading of its \<^verbatim>\<open>finished_at\<close> and its finish log; then, for the failed
  step, the reading of its \<^verbatim>\<open>started_at\<close>, its start log, its own sleep, the reading of
  its \<^verbatim>\<open>finished_at\<close> and the error log, with nothing else in between; then one
  reading per skipped step and nothing more.
\<close>

theorem failed_and_skipped_results:
  assumes "step_loop all_steps rid fail_step d all_steps ([], ''success'') w = (Inr (rs, ov), w')"
    and "i < length rs" and "StepResult.status (rs ! i) = ''failed''"
  shows "fail_step = Some (all_steps ! i)
       \<and> rs ! i =
           \<lparr>name = all_steps ! i, StepResult.status = ''failed'',
            StepResult.started_at = clock w (ticks w + 2 * i),
            StepResult.finished_at = clock w (ticks w + 2 * i + 1),
            message = ''Simulated failure at step '' @ [CHR 0x27] @ all_steps ! i @ [CHR 0x27] @ ''.''\<rparr>
       \<and> (\<forall>j. i < j \<and> j < length rs \<longrightarrow>
             rs ! j =
               \<lparr>name = all_steps ! j, StepResult.status = ''skipped'',
                StepResult.started_at = clock w (ticks w + i + j + 1),
                StepResult.finished_at = clock w (ticks w + i + j + 1),
                message = ''Skipped due to previous failure.''\<rparr>)
       \<and> events w' =
           events w
           @ concat (map (\<lambda>r. [Now (StepResult.started_at r),
                                Log INFO (''Step started: '' @ name r) rid,
                                Sleep (py_max (Fin 0) d),
                                Now (StepResult.finished_at r),
                                Log INFO (''Step finished: '' @ name r @ '' (success)'') rid])
                        (take i rs))
           @ [Now (StepResult.started_at (rs ! i)),
              Log INFO (''Step started: '' @ name (rs ! i)) rid,
              Sleep (py_max (Fin 0) d),
              Now (StepResult.finished_at (rs ! i)),
              Log ERROR (message (rs ! i)) rid]
           @ map (\<lambda>r. Now (StepResult.started_at r)) (drop (Suc i) rs)"
proof -
  from assms obtain pre f post where
    dec: "all_steps = pre @ f # post" and fs: "fail_step = Some f" and ip: "i = length pre"
    and rs: "rs = ok_results (clock w) (ticks w) pre
            @ failed_result (clock w) (ticks w + 2 * length pre) f
            # skipped_results (clock w) (ticks w + 2 * length pre + 2) post"
    and ev: "events w' = events w @ ok_events rid d (clock w) (ticks w) pre
                   @ failed_events rid d (clock w) (ticks w + 2 * length pre) f
                   @ skipped_events (clock w) (ticks w + 2 * length pre + 2) post"
    by (rule step_loop_failed_index)
  have at_i: "all_steps ! i = f"
    using dec ip by simp
  have len: "length rs = length pre + 1 + length post"
    using rs by (simp add: length_ok_results length_skipped_results)
  have rsi: "rs ! i = failed_result (clock w) (ticks w + 2 * length pre) f"
    using failure_results_nth(2)[of "clock w" "ticks w" pre f post] rs ip by simp
  have failed: "rs ! i =
           \<lparr>name = all_steps ! i, StepResult.status = ''failed'',
            StepResult.started_at = clock w (ticks w + 2 * i),
            StepResult.finished_at = clock w (ticks w + 2 * i + 1),
            message = ''Simulated failure at step '' @ [CHR 0x27] @ all_steps ! i @ [CHR 0x27] @ ''.''\<rparr>"
    using rsi ip at_i by (simp add: failed_result_def)
  have skipped: "rs ! j =
               \<lparr>name = all_steps ! j, StepResult.status = ''skipped'',
                StepResult.started_at = clock w (ticks w + i + j + 1),
                StepResult.finished_at = clock w (ticks w + i + j + 1),
                message = ''Skipped due to previous failure.''\<rparr>"
    if ij: "i < j" and j: "j < length rs" for j
  proof -
    from ij ip have a: "length pre < j" by simp
    from j len have b: "j < length pre + 1 + length post" by simp
    from a have nm: "all_steps ! j = post ! (j - length pre - 1)"
      using dec by (simp add: nth_append nth_Cons')
    from failure_results_nth(3)[OF a b, of "clock w" "ticks w" f] rs ip nm
    show ?thesis by simp
  qed
  have tk: "take i rs = ok_results (clock w) (ticks w) pre"
    using rs ip by (simp add: length_ok_results)
  have dr: "drop (Suc i) rs = skipped_results (clock w) (ticks w + 2 * length pre + 2) post"
    using rs ip by (simp add: length_ok_results)
  have e1: "ok_events rid d (clock w) (ticks w) pre =
          concat (map (\<lambda>r. [Now (StepResult.started_at r),
                                Log INFO (''Step started: '' @ name r) rid,
                                Sleep (py_max (Fin 0) d),
                                Now (StepResult.finished_at r),
                                Log INFO (''Step finished: '' @ name r @ '' (success)'') rid])
                        (take i rs))"
    unfolding tk ok_events_def ok_trace_def by (rule refl)
  have e2: "failed_events rid d (clock w) (ticks w + 2 * length pre) f =
           [Now (StepResult.started_at (rs ! i)),
              Log INFO (''Step started: '' @ name (rs ! i)) rid,
              Sleep (py_max (Fin 0) d),
              Now (StepResult.finished_at (rs ! i)),
              Log ERROR (message (rs ! i)) rid]"
    unfolding rsi failed_events_def failed_trace_def by (rule refl)
  have e3: "skipped_events (clock w) (ticks w + 2 * length pre + 2) post =
           map (\<lambda>r. Now (StepResult.started_at r)) (drop (Suc i) rs)"
    unfolding dr skipped_events_def by (rule concat_map_skipped_trace)
  have trace: "events w' =
           events w
           @ concat (map (\<lambda>r. [Now (StepResult.started_at r),
                                Log INFO (''Step started: '' @ name r) rid,
                                Sleep (py_max (Fin 0) d),
                                Now (StepResult.finished_at r),
                                Log INFO (''Step finished: '' @ name r @ '' (success)'') rid])
                        (take i rs))
           @ [Now (StepResult.started_at (rs ! i)),
              Log INFO (''Step started: '' @ name (rs ! i)) rid,
              Sleep (py_max (Fin 0) d),
              Now (StepResult.finished_at (rs ! i)),
              Log ERROR (message (rs ! i)) rid]
           @ map (\<lambda>r. Now (StepResult.started_at r)) (drop (Suc i) rs)"
    unfolding ev e1 e2 e3 by (rule refl)
  from fs at_i failed skipped trace show ?thesis by blast
qed

text \<open>C8 at the module's steps with fail step \<open>test\<close> and no delay, in a world whose
  \<open>k\<close>-th clock reading is \<open>k\<close> strokes: test holds readings 2 and 3, with its own sleep
  between them in the trace; package holds reading 4, deploy reading 5.\<close>

theorem failed_and_skipped_results_witness:
  "(\<exists>rs ov w'. step_loop PIPELINE_STEPS ''r1'' (Some ''test'') (Fin 0) PIPELINE_STEPS
                 ([], ''success'') (sample_world []) = (Inr (rs, ov), w')
      \<and> 1 < length rs \<and> StepResult.status (rs ! 1) = ''failed''
      \<and> PIPELINE_STEPS ! 1 = ''test''
      \<and> message (rs ! 1) = ''Simulated failure at step '' @ [CHR 0x27] @ ''test'' @ [CHR 0x27] @ ''.''
      \<and> StepResult.started_at (rs ! 1) = ''II'' \<and> StepResult.finished_at (rs ! 1) = ''III''
      \<and> rs ! 2 =
           \<lparr>name = ''package'', StepResult.status = ''skipped'',
            StepResult.started_at = ''IIII'', StepResult.finished_at = ''IIII'',
            message = ''Skipped due to previous failure.''\<rparr>
      \<and> events w' =
           [Now [], Log INFO ''Step started: build'' ''r1'', Sleep (Fin 0), Now ''I'',
            Log INFO ''Step finished: build (success)'' ''r1'',
            Now ''II'', Log INFO ''Step started: test'' ''r1'', Sleep (Fin 0), Now ''III'',
            Log ERROR (''Simulated failure at step '' @ [CHR 0x27] @ ''test'' @ [CHR 0x27] @ ''.'')
              ''r1'',
            Now ''IIII'', Now ''IIIII''])"
proof -
  let ?rs = "[\<lparr>name = ''build'', StepResult.status = ''success'', StepResult.started_at = [],
             StepResult.finished_at = ''I'', message = ''OK''\<rparr>,
            \<lparr>name = ''test'', StepResult.status = ''failed'', StepResult.started_at = ''II'',
             StepResult.finished_at = ''III'',
             message = ''Simulated failure at step '' @ [CHR 0x27] @ ''test'' @ [CHR 0x27] @ ''.''\<rparr>,
            \<lparr>name = ''package'', StepResult.status = ''skipped'',
             StepResult.started_at = ''IIII'', StepResult.finished_at = ''IIII'',
             message = ''Skipped due to previous failure.''\<rparr>,
            \<lparr>name = ''deploy'', StepResult.status = ''skipped'',
             StepResult.started_at = ''IIIII'', StepResult.finished_at = ''IIIII'',
             message = ''Skipped due to previous failure.''\<rparr>]"
  from scenario_B_loop obtain w' where
    loop: "step_loop PIPELINE_STEPS ''r1'' (Some ''test'') (Fin 0) PIPELINE_STEPS ([], ''success'')
             (sample_world []) = (Inr (?rs, ''failed''), w')"
    by blast
  have l: "1 < length ?rs" by simp
  have f: "StepResult.status (?rs ! 1) = ''failed''" by simp
  note all = failed_and_skipped_results[OF loop l f]
  have st: "PIPELINE_STEPS ! 1 = ''test''"
    by (simp add: PIPELINE_STEPS_def)
  from all have ev: "events w' =
           events (sample_world [])
           @ concat (map (\<lambda>r. [Now (StepResult.started_at r),
                                Log INFO (''Step started: '' @ name r) ''r1'',
                                Sleep (py_max (Fin 0) (Fin 0)),
                                Now (StepResult.finished_at r),
                                Log INFO (''Step finished: '' @ name r @ '' (success)'') ''r1''])
                        (take 1 ?rs))
           @ [Now (StepResult.started_at (?rs ! 1)),
              Log INFO (''Step started: '' @ name (?rs ! 1)) ''r1'',
              Sleep (py_max (Fin 0) (Fin 0)),
              Now (StepResult.finished_at (?rs ! 1)),
              Log ERROR (message (?rs ! 1)) ''r1'']
           @ map (\<lambda>r. Now (StepResult.started_at r)) (drop (Suc 1) ?rs)"
    by blast
  have ev': "events w' =
           [Now [], Log INFO ''Step started: build'' ''r1'', Sleep (Fin 0), Now ''I'',
            Log INFO ''Step finished: build (success)'' ''r1'',
            Now ''II'', Log INFO ''Step started: test'' ''r1'', Sleep (Fin 0), Now ''III'',
            Log ERROR (''Simulated failure at step '' @ [CHR 0x27] @ ''test'' @ [CHR 0x27] @ ''.'')
              ''r1'',
            Now ''IIII'', Now ''IIIII'']"
    unfolding ev by (simp add: sample_world_def py_max_def)
  have rest: "message (?rs ! 1) = ''Simulated failure at step '' @ [CHR 0x27] @ ''test'' @ [CHR 0x27] @ ''.''"
    "StepResult.started_at (?rs ! 1) = ''II''" "StepResult.finished_at (?rs ! 1) = ''III''"
    "?rs ! 2 =
           \<lparr>name = ''package'', StepResult.status = ''skipped'',
            StepResult.started_at = ''IIII'', StepResult.finished_at = ''IIII'',
            message = ''Skipped due to previous failure.''\<rparr>"
    by simp_all
  from loop l f st rest ev' show ?thesis by blast
qed

section \<open>Negative work delay\<close>

lemma py_max_negative:
  "float_gt (Fin 0) d \<Longrightarrow> py_max (Fin 0) d = Fin 0"
  by (cases d) (simp_all add: py_max_def)

text \<open>
  Claim C9. For a negative \<^verbatim>\<open>simulate_seconds\<close> (a negative number or minus infinity)
  the loop does exactly what it does for zero (same results, same world, the sleeps
  performed being \<^verbatim>\<open>time.sleep(0.0)\<close>), it returns and does not raise, and so the whole
  run is the run with zero delay.
\<close>

theorem negative_delay_clamped:
  assumes "float_gt (Fin 0) d"
  shows "step_loop all_steps rid fail_step d all_steps ([], ''success'') w
           = step_loop all_steps rid fail_step (Fin 0) all_steps ([], ''success'') w
       \<and> (\<exists>rs ov w'. step_loop all_steps rid fail_step d all_steps ([], ''success'') w
                        = (Inr (rs, ov), w'))
       \<and> run_pipeline_on all_steps rid art rma ay fail_step d w
           = run_pipeline_on all_steps rid art rma ay fail_step (Fin 0) w
       \<and> time_sleep (py_max (Fin 0) d) v = (Inr (), v\<lparr>events := events v @ [Sleep (Fin 0)]\<rparr>)"
proof -
  have z: "py_max (Fin 0) d = Fin 0"
    using assms by (rule py_max_negative)
  have m: "py_max (Fin 0) d = py_max (Fin 0) (Fin 0)"
    using z by (simp add: py_max_def)
  have eq: "step_loop S r fs d todo st u = step_loop S r fs (Fin 0) todo st u" for S r fs todo st u
    by (rule step_loop_clamp[OF m])
  have acc: "sleep_accepts (py_max (Fin 0) d)"
    using z by simp
  have ret: "\<exists>rs ov w'. step_loop all_steps rid fail_step d all_steps ([], ''success'') w
                        = (Inr (rs, ov), w')"
    by (rule step_loop_returns[OF acc])
  have run: "run_pipeline_on all_steps rid art rma ay fail_step d w
           = run_pipeline_on all_steps rid art rma ay fail_step (Fin 0) w"
    unfolding run_pipeline_on_def eq by (rule refl)
  have sl: "time_sleep (py_max (Fin 0) d) v = (Inr (), v\<lparr>events := events v @ [Sleep (Fin 0)]\<rparr>)"
    using z by simp
  from eq ret run sl show ?thesis by blast
qed

text \<open>C9 at a delay of minus one second.\<close>

theorem negative_delay_clamped_witness:
  "float_gt (Fin 0) (Fin (-1)) \<and>
   step_loop PIPELINE_STEPS ''r1'' None (Fin (-1)) PIPELINE_STEPS ([], ''success'') (sample_world [])
     = step_loop PIPELINE_STEPS ''r1'' None (Fin 0) PIPELINE_STEPS ([], ''success'')
         (sample_world []) \<and>
   (\<exists>rs ov w'. step_loop PIPELINE_STEPS ''r1'' None (Fin (-1)) PIPELINE_STEPS ([], ''success'')
                 (sample_world []) = (Inr (rs, ov), w')) \<and>
   run_pipeline ''r1'' ''api-service@1.0.0'' False False None (Fin (-1)) (sample_world [])
     = run_pipeline ''r1'' ''api-service@1.0.0'' False False None (Fin 0) (sample_world [])"
proof -
  have h: "float_gt (Fin 0) (Fin (-1))" by simp
  from negative_delay_clamped[OF h, of PIPELINE_STEPS "''r1''" None "sample_world []"
         "''api-service@1.0.0''" False False] h
  show ?thesis
    unfolding run_pipeline_def by blast
qed

end
